theory Spec2Isabelle
  imports Main "HOL-Library.Word" "HOL-Library.Signed_Division" "HOL-Library.Sublist"
begin

unbundle bit_operations_syntax

section \<open>JavaScript values\<close>

text \<open>
  A JavaScript string is a sequence of UTF-16 code units; the model keeps the code
  units as natural numbers. \<open>js\<close> turns an ASCII literal into such a string.
  \<open>Date.now()\<close> is an integral number of milliseconds since the Unix epoch; each
  function that reads the clock takes the value it reads as the argument \<open>now\<close>.
  Numbers are taken in the range where JavaScript's doubles are exact integers.
\<close>

type_synonym jsstring = "nat list"

definition js :: "string \<Rightarrow> jsstring" where
  "js s = map of_char s"

text \<open>\<open>Math.floor(a / b)\<close> for integral \<open>a\<close> and positive \<open>b\<close>.\<close>

definition floor_div :: "int \<Rightarrow> int \<Rightarrow> int" where
  "floor_div a b = a div b"

text \<open>JavaScript's \<open>%\<close>: the remainder takes the sign of the dividend.\<close>

definition js_rem :: "int \<Rightarrow> int \<Rightarrow> int" where
  "js_rem a b = a smod b"

section \<open>The time-step clock (utils/totp.ts)\<close>

text \<open>
  \<^verbatim>\<open>export const getTimeRemaining = (): number =>
    30 - (Math.floor(Date.now() / 1000) % 30);\<close>
\<close>

definition getTimeRemaining :: "int \<Rightarrow> int" where
  "getTimeRemaining now = 30 - js_rem (floor_div now 1000) 30"

section \<open>The URI parser (utils/totp.ts)\<close>

text \<open>
  \<^verbatim>\<open>export interface TotpData { secret: string; label?: string; issuer?: string; }\<close>
\<close>

record TotpData =
  secret :: jsstring
  label :: "jsstring option"
  issuer :: "jsstring option"

text \<open>
  The parser calls three built-ins of the JavaScript platform: the \<open>URL\<close> constructor
  (of which it reads \<open>pathname\<close> and \<open>search\<close>), \<open>URLSearchParams\<close> and
  \<open>decodeURIComponent\<close>. They are parameters of the model; an exception they throw
  is the left summand of their result.
\<close>

datatype exn = TypeError | URIError | LibraryError

record url =
  pathname :: jsstring
  search :: jsstring

record platform =
  URL_new :: "jsstring \<Rightarrow> exn + url"
  URLSearchParams_new :: "jsstring \<Rightarrow> (jsstring \<times> jsstring) list"
  decodeURIComponent :: "jsstring \<Rightarrow> exn + jsstring"

text \<open>\<open>params.get(name)\<close>: the value of the first pair called \<open>name\<close>, or null.\<close>

fun URLSearchParams_get :: "(jsstring \<times> jsstring) list \<Rightarrow> jsstring \<Rightarrow> jsstring option" where
  "URLSearchParams_get [] name = None"
| "URLSearchParams_get ((n, v) # ps) name =
     (if n = name then Some v else URLSearchParams_get ps name)"

definition startsWith :: "jsstring \<Rightarrow> jsstring \<Rightarrow> bool" where
  "startsWith s p = prefix p s"

text \<open>\<open>s.substring(n)\<close> with one argument \<open>n \<ge> 0\<close>: empty when \<open>s\<close> is shorter.\<close>

definition substring :: "jsstring \<Rightarrow> nat \<Rightarrow> jsstring" where
  "substring s n = drop n s"

text \<open>\<open>x || undefined\<close> on a string or null: the empty string is falsy.\<close>

definition or_undefined :: "jsstring option \<Rightarrow> jsstring option" where
  "or_undefined x = (case x of None \<Rightarrow> None | Some s \<Rightarrow> if s = [] then None else Some s)"

text \<open>
  The body of the \<open>try\<close> block: \<open>Inr None\<close> is an explicit \<open>return null\<close>, \<open>Inl e\<close>
  an exception thrown inside the block.
  \<^verbatim>\<open>
    if (!uri.startsWith('otpauth://totp/')) return null;
    const url = new URL(uri);
    const params = new URLSearchParams(url.search);
    const secret = params.get('secret');
    if (!secret) return null;
    const label = decodeURIComponent(url.pathname.substring(7)); // Remove /totp/
    const issuer = params.get('issuer') || undefined;
    return { secret, label, issuer };\<close>
\<close>

definition parseTotpUri_try :: "platform \<Rightarrow> jsstring \<Rightarrow> exn + TotpData option" where
  "parseTotpUri_try P uri =
     (if \<not> startsWith uri (js ''otpauth://totp/'') then Inr None
      else case URL_new P uri of
        Inl e \<Rightarrow> Inl e
      | Inr u \<Rightarrow>
          let params = URLSearchParams_new P (search u) in
          (case URLSearchParams_get params (js ''secret'') of
             None \<Rightarrow> Inr None
           | Some s \<Rightarrow>
               if s = [] then Inr None
               else (case decodeURIComponent P (substring (pathname u) 7) of
                  Inl e \<Rightarrow> Inl e
                | Inr l \<Rightarrow>
                    Inr (Some \<lparr>secret = s, label = Some l,
                      issuer = or_undefined (URLSearchParams_get params (js ''issuer''))\<rparr>))))"

text \<open>\<open>try { ... } catch (error) { console.error(...); return null; }\<close>\<close>

definition parseTotpUri :: "platform \<Rightarrow> jsstring \<Rightarrow> TotpData option" where
  "parseTotpUri P uri = (case parseTotpUri_try P uri of Inl e \<Rightarrow> None | Inr r \<Rightarrow> r)"

section \<open>Code generation (utils/totp.ts)\<close>

text \<open>
  \<open>generateTotpCode\<close> configures an \<open>Authenticator\<close> of the otplib package with
  \<open>digits: 6\<close> and \<open>epoch: Date.now() + (next ? 30000 : 0)\<close> and returns what its
  \<open>generate\<close> method returns, or null when that throws. The method is the parameter
  \<open>generate\<close>; \<open>now\<close> is the clock value the call reads.
\<close>

record options =
  digits :: nat
  epoch :: int

definition generateTotpCode ::
  "(options \<Rightarrow> jsstring \<Rightarrow> exn + jsstring) \<Rightarrow> int \<Rightarrow> jsstring \<Rightarrow> bool \<Rightarrow> jsstring option" where
  "generateTotpCode generate now s next =
     (case generate \<lparr>digits = 6, epoch = now + (if next then 30000 else 0)\<rparr> s of
        Inl e \<Rightarrow> None
      | Inr code \<Rightarrow> Some code)"

section \<open>The live display (components/ValueDisplay.tsx)\<close>

text \<open>
  The state of one mounted component: the two \<open>useState\<close> cells, the interval the
  effect registered (given by the secret its callback closes over; \<open>None\<close> when no
  interval is registered), and the number of calls of \<open>generateTotpCode\<close> made so far.
\<close>

record display =
  totpCode :: "jsstring option"
  timeRemaining :: int
  interval :: "jsstring option"
  derivations :: nat

definition mounted :: display where
  "mounted = \<lparr>totpCode = None, timeRemaining = 30, interval = None, derivations = 0\<rparr>"

text \<open>\<open>if (code) setTotpCode(code); else setTotpCode('Error');\<close> (null and the empty
  string are falsy).\<close>

definition code_or_error :: "jsstring option \<Rightarrow> jsstring" where
  "code_or_error code =
     (case code of None \<Rightarrow> js ''Error'' | Some c \<Rightarrow> if c = [] then js ''Error'' else c)"

text \<open>
  The body of the effect, run when \<open>value\<close> becomes the string \<open>v\<close>; \<open>t_gen\<close> and
  \<open>t_rem\<close> are the clock values read by \<open>generateTotpCode\<close> and by
  \<open>getTimeRemaining\<close>.
  \<^verbatim>\<open>
    if (!isTotpUri) return;
    const totpData = parseTotpUri(value);
    if (!totpData) return;
    const code = generateTotpCode(totpData.secret);
    if (code) setTotpCode(code); else setTotpCode('Error');
    const remainingTime = getTimeRemaining();
    setTimeRemaining(remainingTime);
    const intervalId = setInterval(() => { ... }, 1000);\<close>
\<close>

definition activate ::
  "platform \<Rightarrow> (options \<Rightarrow> jsstring \<Rightarrow> exn + jsstring) \<Rightarrow> jsstring \<Rightarrow> int \<Rightarrow> int
     \<Rightarrow> display \<Rightarrow> display" where
  "activate P generate v t_gen t_rem st =
     (if \<not> startsWith v (js ''otpauth://totp/'') then st
      else case parseTotpUri P v of
        None \<Rightarrow> st
      | Some totpData \<Rightarrow>
          st\<lparr>totpCode := Some (code_or_error
                 (generateTotpCode generate t_gen (secret totpData) False)),
             timeRemaining := getTimeRemaining t_rem,
             interval := Some (secret totpData),
             derivations := derivations st + 1\<rparr>)"

text \<open>
  One run of the interval's callback; \<open>t_rem\<close> and \<open>t_gen\<close> are the clock values it
  reads. Without a registered interval nothing runs.
  \<^verbatim>\<open>
    const newTimeRemaining = getTimeRemaining();
    setTimeRemaining(newTimeRemaining);
    if (newTimeRemaining === 30) {
      const newCode = generateTotpCode(totpData.secret);
      if (newCode) setTotpCode(newCode); else setTotpCode('Error');
    }\<close>
\<close>

definition tick ::
  "(options \<Rightarrow> jsstring \<Rightarrow> exn + jsstring) \<Rightarrow> int \<Rightarrow> int \<Rightarrow> display \<Rightarrow> display" where
  "tick generate t_rem t_gen st =
     (case interval st of
        None \<Rightarrow> st
      | Some s \<Rightarrow>
          if getTimeRemaining t_rem = 30
          then st\<lparr>timeRemaining := getTimeRemaining t_rem,
                  totpCode := Some (code_or_error (generateTotpCode generate t_gen s False)),
                  derivations := derivations st + 1\<rparr>
          else st\<lparr>timeRemaining := getTimeRemaining t_rem\<rparr>)"

text \<open>The effect's cleanup: \<open>clearInterval(intervalId)\<close>.\<close>

definition cleanup :: "display \<Rightarrow> display" where
  "cleanup st = st\<lparr>interval := None\<rparr>"

text \<open>A sequence of ticks, each with the two clock values it reads.\<close>

fun run :: "(options \<Rightarrow> jsstring \<Rightarrow> exn + jsstring) \<Rightarrow> (int \<times> int) list \<Rightarrow> display \<Rightarrow> display" where
  "run generate [] st = st"
| "run generate ((t_rem, t_gen) # ts) st = run generate ts (tick generate t_rem t_gen st)"

text \<open>The clock values of \<open>n\<close> ticks, one second apart, after an activation at \<open>t0\<close>.\<close>

definition every_second :: "int \<Rightarrow> nat \<Rightarrow> (int \<times> int) list" where
  "every_second t0 n = map (\<lambda>k. (t0 + 1000 * int k, t0 + 1000 * int k)) [1..<Suc n]"

section \<open>The code derivation engine\<close>

text \<open>
  \<open>Authenticator.generate\<close> belongs to the otplib package, which is not among the
  repository's files; \<open>generateTotpCode\<close> passes it the plug-ins \<open>keyDecoder\<close> (Base32)
  and \<open>createDigest\<close> (the keyed digest, here taking the key and the message as bytes).
\<close>

type_synonym byte = "8 word"

record plugins =
  keyDecoder :: "jsstring \<Rightarrow> exn + byte list"
  createDigest :: "byte list \<Rightarrow> byte list \<Rightarrow> byte list"

text \<open>
  Modelled from the spec: the Time-Step Clock's \<open>currentStep\<close>, which the source does
  not define (section 3: TimeStep is \<open>floor(unixTimeSeconds / 30)\<close>; section 4.3: derived
  from \<open>floor(unixTimeSeconds)\<close>). The argument is the clock value in milliseconds.
\<close>

definition currentStep :: "int \<Rightarrow> int" where
  "currentStep now = floor_div (floor_div now 1000) 30"

text \<open>The big-endian encoding of \<open>c\<close> in \<open>n\<close> bytes, and the number a byte sequence
  denotes when read big-endian.\<close>

fun be_bytes :: "nat \<Rightarrow> nat \<Rightarrow> byte list" where
  "be_bytes 0 c = []"
| "be_bytes (Suc n) c = be_bytes n (c div 256) @ [of_nat c]"

definition be_nat :: "byte list \<Rightarrow> nat" where
  "be_nat bs = foldl (\<lambda>a b. a * 256 + unat b) 0 bs"

text \<open>
  Modelled from the spec: steps 3 and 4 of section 4.4, on the digest. The offset is
  the low 4 bits of the last byte; the four bytes from there are put together with
  the top bit of the first one masked off. A digest too short for that is a failure.
\<close>

definition dynamic_truncation :: "byte list \<Rightarrow> exn + nat" where
  "dynamic_truncation d =
     (if d = [] then Inl LibraryError
      else let off = unat (last d AND 0x0F) in
        if length d < off + 4 then Inl LibraryError
        else Inr (unat (d ! off AND 0x7F) * 2 ^ 24 + unat (d ! (off + 1)) * 2 ^ 16
                  + unat (d ! (off + 2)) * 2 ^ 8 + unat (d ! (off + 3))))"

text \<open>\<open>String(n)\<close> for a natural number, and \<open>s.padStart(n, pad)\<close> for one pad character.\<close>

function decimal :: "nat \<Rightarrow> jsstring" where
  "decimal n = (if n < 10 then [0x30 + n] else decimal (n div 10) @ [0x30 + n mod 10])"
  by pat_completeness auto
termination
  by (relation "measure id") auto

declare decimal.simps [simp del]

definition padStart :: "jsstring \<Rightarrow> nat \<Rightarrow> nat \<Rightarrow> jsstring" where
  "padStart s n pad = replicate (n - length s) pad @ s"

text \<open>
  Modelled from the spec: the Code Derivation Engine of section 4.4, from the decoded
  secret and a time-step counter. A counter that has no 8-byte unsigned encoding is a
  failure.
\<close>

definition derive_code :: "plugins \<Rightarrow> byte list \<Rightarrow> int \<Rightarrow> nat \<Rightarrow> exn + jsstring" where
  "derive_code p key step n =
     (if step < 0 \<or> 2 ^ 64 \<le> step then Inl LibraryError
      else case dynamic_truncation (createDigest p key (be_bytes 8 (nat step))) of
        Inl e \<Rightarrow> Inl e
      | Inr binary \<Rightarrow> Inr (padStart (decimal (binary mod 10 ^ n)) n 0x30))"

text \<open>
  Modelled from the spec: \<open>Authenticator.generate\<close> of otplib with the options the
  source sets. The secret is decoded (a decoding failure is a derivation failure) and
  the engine runs at the step of the configured epoch.
\<close>

definition authenticator_generate :: "plugins \<Rightarrow> options \<Rightarrow> jsstring \<Rightarrow> exn + jsstring" where
  "authenticator_generate p opts s =
     (case keyDecoder p s of
        Inl e \<Rightarrow> Inl e
      | Inr key \<Rightarrow> derive_code p key (currentStep (epoch opts)) (digits opts))"

text \<open>The code of a secret at a given step, as \<open>generateTotpCode\<close> reports it.\<close>

definition code_at_step :: "plugins \<Rightarrow> jsstring \<Rightarrow> int \<Rightarrow> jsstring option" where
  "code_at_step p s step =
     (case keyDecoder p s of
        Inl e \<Rightarrow> None
      | Inr key \<Rightarrow> (case derive_code p key step 6 of Inl e \<Rightarrow> None | Inr c \<Rightarrow> Some c))"

text \<open>What a string of decimal digits denotes, and the test for a digit.\<close>

definition is_digit :: "nat \<Rightarrow> bool" where
  "is_digit c = (0x30 \<le> c \<and> c \<le> 0x39)"

definition decimal_value :: "jsstring \<Rightarrow> nat" where
  "decimal_value s = foldl (\<lambda>a c. a * 10 + (c - 0x30)) 0 s"

section \<open>The platform built-ins\<close>

text \<open>
  A model of the three built-ins as the URL Standard and ECMAScript define them, used
  to run the parser on concrete inputs. Strings are read as Unicode scalar values
  (a lone surrogate becomes U+FFFD) and percent-encoded through UTF-8.
\<close>

definition is_lead_surrogate :: "nat \<Rightarrow> bool" where
  "is_lead_surrogate u = (0xD800 \<le> u \<and> u \<le> 0xDBFF)"

definition is_trail_surrogate :: "nat \<Rightarrow> bool" where
  "is_trail_surrogate u = (0xDC00 \<le> u \<and> u \<le> 0xDFFF)"

fun to_scalar_values :: "jsstring \<Rightarrow> nat list" where
  "to_scalar_values [] = []"
| "to_scalar_values [u] =
     (if is_lead_surrogate u \<or> is_trail_surrogate u then [0xFFFD] else [u])"
| "to_scalar_values (u # v # us) =
     (if is_lead_surrogate u \<and> is_trail_surrogate v
      then (0x10000 + (u - 0xD800) * 0x400 + (v - 0xDC00)) # to_scalar_values us
      else if is_lead_surrogate u \<or> is_trail_surrogate u
      then 0xFFFD # to_scalar_values (v # us)
      else u # to_scalar_values (v # us))"

definition utf16_encode :: "nat \<Rightarrow> jsstring" where
  "utf16_encode cp =
     (if cp < 0x10000 then [cp]
      else [0xD800 + (cp - 0x10000) div 0x400, 0xDC00 + (cp - 0x10000) mod 0x400])"

definition utf8_encode :: "nat \<Rightarrow> nat list" where
  "utf8_encode cp =
     (if cp < 0x80 then [cp]
      else if cp < 0x800 then [0xC0 + cp div 0x40, 0x80 + cp mod 0x40]
      else if cp < 0x10000
      then [0xE0 + cp div 0x1000, 0x80 + (cp div 0x40) mod 0x40, 0x80 + cp mod 0x40]
      else [0xF0 + cp div 0x40000, 0x80 + (cp div 0x1000) mod 0x40,
            0x80 + (cp div 0x40) mod 0x40, 0x80 + cp mod 0x40])"

text \<open>
  The UTF-8 decoder of the Encoding Standard, one byte at a time. The state of a
  started sequence is (bytes needed, code point so far, lower and upper bound of the
  next byte); \<open>None\<close> as a result is a malformed byte.
\<close>

type_synonym utf8_state = "(nat \<times> nat \<times> nat \<times> nat) option"

definition utf8_first :: "nat \<Rightarrow> (nat list \<times> utf8_state) option" where
  "utf8_first b =
     (if b \<le> 0x7F then Some ([b], None)
      else if 0xC2 \<le> b \<and> b \<le> 0xDF then Some ([], Some (1, b mod 0x20, 0x80, 0xBF))
      else if 0xE0 \<le> b \<and> b \<le> 0xEF
      then Some ([], Some (2, b mod 0x10, if b = 0xE0 then 0xA0 else 0x80,
                           if b = 0xED then 0x9F else 0xBF))
      else if 0xF0 \<le> b \<and> b \<le> 0xF4
      then Some ([], Some (3, b mod 0x08, if b = 0xF0 then 0x90 else 0x80,
                           if b = 0xF4 then 0x8F else 0xBF))
      else None)"

definition utf8_next :: "nat \<times> nat \<times> nat \<times> nat \<Rightarrow> nat \<Rightarrow> (nat list \<times> utf8_state) option" where
  "utf8_next st b =
     (case st of (needed, cp, lower, upper) \<Rightarrow>
        if lower \<le> b \<and> b \<le> upper
        then (if needed = 1 then Some ([cp * 0x40 + b mod 0x40], None)
              else Some ([], Some (needed - 1, cp * 0x40 + b mod 0x40, 0x80, 0xBF)))
        else None)"

text \<open>
  Decoding with replacement: a malformed byte gives U+FFFD, and a byte that broke a
  started sequence is then read again as the first byte of a sequence.
\<close>

definition utf8_restart :: "nat \<Rightarrow> nat list \<times> utf8_state" where
  "utf8_restart b = (case utf8_first b of Some r \<Rightarrow> r | None \<Rightarrow> ([0xFFFD], None))"

definition utf8_step :: "utf8_state \<Rightarrow> nat \<Rightarrow> nat list \<times> utf8_state" where
  "utf8_step st b =
     (case st of
        None \<Rightarrow> utf8_restart b
      | Some s \<Rightarrow>
          (case utf8_next s b of
             Some r \<Rightarrow> r
           | None \<Rightarrow> (0xFFFD # fst (utf8_restart b), snd (utf8_restart b))))"

fun utf8_decode :: "utf8_state \<Rightarrow> nat list \<Rightarrow> nat list" where
  "utf8_decode st [] = (if st = None then [] else [0xFFFD])"
| "utf8_decode st (b # bs) = fst (utf8_step st b) @ utf8_decode (snd (utf8_step st b)) bs"

definition utf8_decode_string :: "nat list \<Rightarrow> jsstring" where
  "utf8_decode_string bs = concat (map utf16_encode (utf8_decode None bs))"

definition is_hex :: "nat \<Rightarrow> bool" where
  "is_hex c = ((0x30 \<le> c \<and> c \<le> 0x39) \<or> (0x41 \<le> c \<and> c \<le> 0x46) \<or> (0x61 \<le> c \<and> c \<le> 0x66))"

definition hex_val :: "nat \<Rightarrow> nat" where
  "hex_val c = (if c \<le> 0x39 then c - 0x30 else if c \<le> 0x46 then c - 0x37 else c - 0x57)"

definition hex_digit :: "nat \<Rightarrow> nat" where
  "hex_digit n = (if n < 10 then 0x30 + n else 0x37 + n)"

definition percent_encode_byte :: "nat \<Rightarrow> nat list" where
  "percent_encode_byte b = [0x25, hex_digit (b div 16), hex_digit (b mod 16)]"

text \<open>The percent-encode sets of the URL Standard.\<close>

definition c0_control_set :: "nat \<Rightarrow> bool" where
  "c0_control_set c = (c \<le> 0x1F \<or> 0x7E < c)"

definition query_set :: "nat \<Rightarrow> bool" where
  "query_set c = (c0_control_set c \<or> c \<in> {0x20, 0x22, 0x23, 0x3C, 0x3E})"

definition path_set :: "nat \<Rightarrow> bool" where
  "path_set c = (query_set c \<or> c \<in> {0x3F, 0x5E, 0x60, 0x7B, 0x7D})"

definition utf8_percent_encode :: "(nat \<Rightarrow> bool) \<Rightarrow> nat \<Rightarrow> nat list" where
  "utf8_percent_encode in_set cp =
     (if in_set cp then concat (map percent_encode_byte (utf8_encode cp)) else [cp])"

fun percent_decode :: "nat list \<Rightarrow> nat list" where
  "percent_decode (b # h # l # rest) =
     (if b = 0x25 \<and> is_hex h \<and> is_hex l
      then (hex_val h * 16 + hex_val l) # percent_decode rest
      else b # percent_decode (h # l # rest))"
| "percent_decode (b # bs) = b # percent_decode bs"
| "percent_decode [] = []"

text \<open>Splitting at every occurrence of a separator (one piece more than separators).\<close>

fun split_on :: "nat \<Rightarrow> nat list \<Rightarrow> nat list list" where
  "split_on sep [] = [[]]"
| "split_on sep (c # cs) =
     (if c = sep then [] # split_on sep cs
      else (case split_on sep cs of p # ps \<Rightarrow> (c # p) # ps | [] \<Rightarrow> [[c]]))"

subsection \<open>The URL constructor on strings that begin with otpauth://totp/\<close>

definition to_lower :: "nat \<Rightarrow> nat" where
  "to_lower c = (if 0x41 \<le> c \<and> c \<le> 0x5A then c + 0x20 else c)"

definition is_single_dot :: "nat list \<Rightarrow> bool" where
  "is_single_dot seg = (map to_lower seg \<in> {js ''.'', js ''%2e''})"

definition is_double_dot :: "nat list \<Rightarrow> bool" where
  "is_double_dot seg =
     (map to_lower seg \<in> {js ''..'', js ''.%2e'', js ''%2e.'', js ''%2e%2e''})"

text \<open>
  The path state of the basic URL parser for a scheme that is not special. The
  segments arrive already percent-encoded; every segment but the last is followed
  by a slash. The path so far is kept last segment first.
\<close>

fun path_state :: "nat list list \<Rightarrow> nat list list \<Rightarrow> nat list list" where
  "path_state path [] = path"
| "path_state path [seg] =
     (if is_double_dot seg then [] # tl path
      else if is_single_dot seg then [] # path
      else seg # path)"
| "path_state path (seg # segs) =
     (if is_double_dot seg then path_state (tl path) segs
      else if is_single_dot seg then path_state path segs
      else path_state (seg # path) segs)"

definition strip_c0_space :: "nat list \<Rightarrow> nat list" where
  "strip_c0_space s = rev (dropWhile (\<lambda>c. c \<le> 0x20) (rev (dropWhile (\<lambda>c. c \<le> 0x20) s)))"

definition remove_tab_newline :: "nat list \<Rightarrow> nat list" where
  "remove_tab_newline s = filter (\<lambda>c. c \<notin> {0x09, 0x0A, 0x0D}) s"

text \<open>
  In \<open>otpauth://totp/...\<close> the scheme \<open>otpauth\<close> is not special and \<open>//\<close> opens an
  authority, so \<open>totp\<close> is the host and the path starts at the slash after it. The
  path ends at the first \<open>?\<close> or \<open>#\<close>, the query at the first \<open>#\<close>. \<open>pathname\<close> is each
  segment with a slash before it; \<open>search\<close> is empty for a missing or empty query.
  On a string that does not begin with \<open>otpauth://totp/\<close> the model gives no URL:
  the parser never passes one.
\<close>

definition whatwg_URL :: "jsstring \<Rightarrow> exn + url" where
  "whatwg_URL input =
     (let s = remove_tab_newline (strip_c0_space (to_scalar_values input)) in
      if \<not> startsWith s (js ''otpauth://totp/'') then Inl TypeError
      else
        let rest = drop 15 s;
            raw_path = takeWhile (\<lambda>c. c \<noteq> 0x3F \<and> c \<noteq> 0x23) rest;
            after = dropWhile (\<lambda>c. c \<noteq> 0x3F \<and> c \<noteq> 0x23) rest;
            segs = map (\<lambda>seg. concat (map (utf8_percent_encode path_set) seg))
                     (split_on 0x2F raw_path);
            path = rev (path_state [] segs);
            query = (case after of
                       c # cs \<Rightarrow>
                         if c = 0x3F
                         then concat (map (utf8_percent_encode query_set)
                                (takeWhile (\<lambda>c. c \<noteq> 0x23) cs))
                         else []
                     | [] \<Rightarrow> [])
        in Inr \<lparr>pathname = concat (map (\<lambda>seg. 0x2F # seg) path),
                search = (if query = [] then [] else 0x3F # query)\<rparr>)"

subsection \<open>URLSearchParams\<close>

definition form_decode :: "nat list \<Rightarrow> jsstring" where
  "form_decode bs =
     utf8_decode_string (percent_decode (map (\<lambda>b. if b = 0x2B then 0x20 else b) bs))"

definition whatwg_URLSearchParams :: "jsstring \<Rightarrow> (jsstring \<times> jsstring) list" where
  "whatwg_URLSearchParams init =
     (let s = (case init of c # cs \<Rightarrow> if c = 0x3F then cs else init | [] \<Rightarrow> []);
          bytes = concat (map utf8_encode (to_scalar_values s))
      in map (\<lambda>piece. (form_decode (takeWhile (\<lambda>b. b \<noteq> 0x3D) piece),
                        form_decode (tl (dropWhile (\<lambda>b. b \<noteq> 0x3D) piece))))
           (filter (\<lambda>piece. piece \<noteq> []) (split_on 0x26 bytes)))"

subsection \<open>decodeURIComponent\<close>

text \<open>
  ECMAScript's Decode with an empty set of preserved escapes: every \<open>%\<close> must start
  an escape \<open>%XX\<close>, and the escaped bytes must be well-formed UTF-8, else URIError.
\<close>

definition utf8_strict :: "utf8_state \<Rightarrow> nat \<Rightarrow> (nat list \<times> utf8_state) option" where
  "utf8_strict st b = (case st of None \<Rightarrow> utf8_first b | Some s \<Rightarrow> utf8_next s b)"

definition then_append :: "nat list \<Rightarrow> exn + jsstring \<Rightarrow> exn + jsstring" where
  "then_append out r =
     (case r of Inl e \<Rightarrow> Inl e | Inr s \<Rightarrow> Inr (concat (map utf16_encode out) @ s))"

fun decode_from :: "utf8_state \<Rightarrow> jsstring \<Rightarrow> exn + jsstring" where
  "decode_from st (c # h # l # rest) =
     (if c = 0x25
      then (if is_hex h \<and> is_hex l
            then (if utf8_strict st (hex_val h * 16 + hex_val l) = None then Inl URIError
                  else then_append
                         (fst (the (utf8_strict st (hex_val h * 16 + hex_val l))))
                         (decode_from
                            (snd (the (utf8_strict st (hex_val h * 16 + hex_val l)))) rest))
            else Inl URIError)
      else if st = None then then_append [c] (decode_from None (h # l # rest))
      else Inl URIError)"
| "decode_from st (c # cs) =
     (if c = 0x25 then Inl URIError
      else if st = None then then_append [c] (decode_from None cs)
      else Inl URIError)"
| "decode_from st [] = (if st = None then Inr [] else Inl URIError)"

definition ecma_decodeURIComponent :: "jsstring \<Rightarrow> exn + jsstring" where
  "ecma_decodeURIComponent s = decode_from None s"

definition whatwg :: platform where
  "whatwg = \<lparr>URL_new = whatwg_URL, URLSearchParams_new = whatwg_URLSearchParams,
             decodeURIComponent = ecma_decodeURIComponent\<rparr>"

section \<open>Stand-ins for the library\<close>

text \<open>
  A \<open>generate\<close> that throws in every window with an even step number and returns a
  fixed code in the others: derivation that fails and later succeeds again.
\<close>

definition flaky :: "options \<Rightarrow> jsstring \<Rightarrow> exn + jsstring" where
  "flaky opts s = (if even (epoch opts div 30000) then Inl LibraryError else Inr (js ''492039''))"

text \<open>
  Stand-ins for the two plug-ins: a decoder that takes every code unit of a
  non-empty secret as one byte, and a digest that is always the 20-byte example
  digest of RFC 4226, section 5.4 (offset 10, truncated value 0x50ef7f19).
\<close>

definition rfc4226_digest :: "byte list" where
  "rfc4226_digest =
     [0x1f, 0x86, 0x98, 0x69, 0x0e, 0x02, 0xca, 0x16, 0x61, 0x85,
      0x50, 0xef, 0x7f, 0x19, 0xda, 0x8e, 0x94, 0x5b, 0x55, 0x5a]"

definition fixed_digest :: plugins where
  "fixed_digest =
     \<lparr>keyDecoder = (\<lambda>s. if s = [] then Inl LibraryError else Inr (map of_nat s)),
      createDigest = (\<lambda>key msg. rfc4226_digest)\<rparr>"

definition example_uri :: jsstring where
  "example_uri =
     js ''otpauth://totp/Example:alice@example.com?secret=JBSWY3DPEHPK3PXP&issuer=Example''"

section \<open>Properties of the clock\<close>

lemma js_rem_nonneg: "0 \<le> a \<Longrightarrow> js_rem a 30 = a mod 30"
  by (simp add: js_rem_def smod_int_alt_def sgn_if)

lemma getTimeRemaining_eq:
  "0 \<le> now \<Longrightarrow> getTimeRemaining now = 30 - (now div 1000) mod 30"
  by (simp add: getTimeRemaining_def floor_div_def js_rem_nonneg pos_imp_zdiv_nonneg_iff)

text \<open>
  C3. At every clock value \<open>now\<close> (milliseconds since the epoch, not negative)
  \<open>getTimeRemaining\<close> is \<open>30 - (floor(now / 1000) mod 30)\<close>; the result lies in
  \<open>(0, 30]\<close>, so it is never 0, and it is 30 exactly at the start of a window; two
  readings within the same whole second give the same result; and the result repeats
  after 30 seconds.
\<close>

theorem getTimeRemaining_spec:
  assumes "0 \<le> now"
  shows "getTimeRemaining now = 30 - (now div 1000) mod 30
    \<and> 0 < getTimeRemaining now \<and> getTimeRemaining now \<le> 30
    \<and> getTimeRemaining now \<noteq> 0
    \<and> ((getTimeRemaining now = 30) = ((now div 1000) mod 30 = 0))
    \<and> (0 \<le> now' \<and> now' div 1000 = now div 1000
           \<longrightarrow> getTimeRemaining now' = getTimeRemaining now)
    \<and> getTimeRemaining (now + 30000) = getTimeRemaining now"
proof -
  have eq: "getTimeRemaining now = 30 - (now div 1000) mod 30"
    using assms by (rule getTimeRemaining_eq)
  have lo: "0 \<le> (now div 1000) mod 30" and hi: "(now div 1000) mod 30 < 30"
    by simp_all
  have pos: "0 < getTimeRemaining now" using eq hi by linarith
  have le: "getTimeRemaining now \<le> 30" using eq lo by linarith
  have ne: "getTimeRemaining now \<noteq> 0" using eq hi by linarith
  have full: "(getTimeRemaining now = 30) = ((now div 1000) mod 30 = 0)"
    using eq by linarith
  have same: "0 \<le> now' \<and> now' div 1000 = now div 1000
      \<longrightarrow> getTimeRemaining now' = getTimeRemaining now"
    using eq getTimeRemaining_eq [of now'] by simp
  have "(now + 30000) div 1000 = now div 1000 + 30" by simp
  then have "((now + 30000) div 1000) mod 30 = (now div 1000) mod 30" by simp
  then have period: "getTimeRemaining (now + 30000) = getTimeRemaining now"
    using assms eq getTimeRemaining_eq [of "now + 30000"] by simp
  from eq pos le ne full same period show ?thesis by blast
qed

theorem getTimeRemaining_spec_witness:
  "getTimeRemaining 1700000015123 = 25 \<and> getTimeRemaining 1700000015999 = 25
   \<and> getTimeRemaining 1700000045123 = 25"
  using getTimeRemaining_spec [of 1700000015123 1700000015999] by simp

text \<open>
  C8 (the code at the start of a window). At the clock value 1700000040000 the whole
  second 1700000040 is a multiple of 30 and \<open>getTimeRemaining\<close> returns 30, which
  is outside the range \<open>[0, 30)\<close> that the claim and the function's own
  documentation (\<open>0-29\<close>) give.
\<close>

theorem getTimeRemaining_reaches_30:
  "getTimeRemaining 1700000040000 = 30 \<and> \<not> getTimeRemaining 1700000040000 < 30"
  by (simp add: getTimeRemaining_def floor_div_def js_rem_def smod_int_alt_def)

section \<open>Properties of the URI parser\<close>

lemmas platform_defs = js_def startsWith_def substring_def or_undefined_def
  whatwg_def whatwg_URL_def whatwg_URLSearchParams_def
  ecma_decodeURIComponent_def form_decode_def remove_tab_newline_def strip_c0_space_def
  is_single_dot_def is_double_dot_def to_lower_def utf8_percent_encode_def path_set_def
  query_set_def c0_control_set_def percent_encode_byte_def hex_digit_def hex_val_def
  is_hex_def utf8_decode_string_def utf8_next_def utf8_first_def utf8_encode_def
  utf16_encode_def is_lead_surrogate_def is_trail_surrogate_def utf8_step_def
  utf8_restart_def utf8_strict_def then_append_def Let_def

lemma prefix_OTPAUTH: "\<not> startsWith (js ''OTPAUTH://totp/x?secret=ABC'') (js ''otpauth://totp/'')"
  by (simp add: js_def startsWith_def)

lemma prefix_TOTP: "\<not> startsWith (js ''otpauth://TOTP/x?secret=ABC'') (js ''otpauth://totp/'')"
  by (simp add: js_def startsWith_def)

lemma prefix_empty_secret: "startsWith (js ''otpauth://totp/x?secret='') (js ''otpauth://totp/'')"
  by (simp add: js_def startsWith_def)

lemma URL_empty_secret:
  "URL_new whatwg (js ''otpauth://totp/x?secret='')
     = Inr \<lparr>pathname = js ''/x'', search = js ''?secret=''\<rparr>"
  by (simp add: platform_defs)

lemma get_empty_secret:
  "URLSearchParams_get (URLSearchParams_new whatwg (js ''?secret='')) (js ''secret'') = Some []"
  by (simp add: platform_defs)

lemma parse_example:
  "parseTotpUri whatwg
     (js ''otpauth://totp/Example:alice@example.com?secret=JBSWY3DPEHPK3PXP&issuer=Example'')
   = Some \<lparr>secret = js ''JBSWY3DPEHPK3PXP'', label = Some (js ''e:alice@example.com''),
            issuer = Some (js ''Example'')\<rparr>"
  by (simp add: platform_defs parseTotpUri_def parseTotpUri_try_def)

text \<open>
  C2 (the code at the spec's example). For
  \<open>otpauth://totp/Example:alice@example.com?secret=JBSWY3DPEHPK3PXP&issuer=Example\<close>
  the URL's host is \<open>totp\<close> and its pathname is \<open>/Example:alice@example.com\<close>, so
  \<open>substring(7)\<close> drops the slash and the first six characters of the label: the
  secret and the issuer are those of the query, the label is \<open>e:alice@example.com\<close>.
\<close>

theorem parseTotpUri_example_label:
  "URL_new whatwg
     (js ''otpauth://totp/Example:alice@example.com?secret=JBSWY3DPEHPK3PXP&issuer=Example'')
   = Inr \<lparr>pathname = js ''/Example:alice@example.com'',
           search = js ''?secret=JBSWY3DPEHPK3PXP&issuer=Example''\<rparr>
   \<and> map_option label (parseTotpUri whatwg
     (js ''otpauth://totp/Example:alice@example.com?secret=JBSWY3DPEHPK3PXP&issuer=Example''))
   = Some (Some (js ''e:alice@example.com''))
   \<and> js ''e:alice@example.com'' \<noteq> js ''Example:alice@example.com''"
proof -
  have "URL_new whatwg
     (js ''otpauth://totp/Example:alice@example.com?secret=JBSWY3DPEHPK3PXP&issuer=Example'')
   = Inr \<lparr>pathname = js ''/Example:alice@example.com'',
           search = js ''?secret=JBSWY3DPEHPK3PXP&issuer=Example''\<rparr>"
    by (simp add: platform_defs)
  moreover have "js ''e:alice@example.com'' \<noteq> js ''Example:alice@example.com''"
    by (simp add: js_def)
  ultimately show ?thesis by (simp add: parse_example)
qed

lemma try_example:
  "parseTotpUri_try whatwg
     (js ''otpauth://totp/Example:alice@example.com?secret=JBSWY3DPEHPK3PXP&issuer=Example'')
   = Inr (Some \<lparr>secret = js ''JBSWY3DPEHPK3PXP'', label = Some (js ''e:alice@example.com''),
            issuer = Some (js ''Example'')\<rparr>)"
  by (simp add: platform_defs parseTotpUri_try_def)

lemma URL_example:
  "URL_new whatwg
     (js ''otpauth://totp/Example:alice@example.com?secret=JBSWY3DPEHPK3PXP&issuer=Example'')
   = Inr \<lparr>pathname = js ''/Example:alice@example.com'',
           search = js ''?secret=JBSWY3DPEHPK3PXP&issuer=Example''\<rparr>"
  by (simp add: platform_defs)

lemma get_example:
  "URLSearchParams_get
     (URLSearchParams_new whatwg (js ''?secret=JBSWY3DPEHPK3PXP&issuer=Example''))
     (js ''secret'') = Some (js ''JBSWY3DPEHPK3PXP'')"
  by (simp add: platform_defs)

text \<open>
  C5 (as amended). \<open>parseTotpUri\<close> returns null whenever the input does not begin
  with \<open>otpauth://totp/\<close>, or the \<open>URL\<close> constructor throws on it (the exception does
  not escape), or the \<open>secret\<close> query parameter is absent or empty; in every other
  case it returns a TotpData, carrying that secret, unless an exception is thrown
  while the TotpData is built.
\<close>

theorem parseTotpUri_null_cases:
  "(\<not> startsWith uri (js ''otpauth://totp/'')
      \<or> (\<exists>e. URL_new P uri = Inl e)
      \<or> (\<exists>u. URL_new P uri = Inr u
            \<and> (URLSearchParams_get (URLSearchParams_new P (search u)) (js ''secret'') = None
               \<or> URLSearchParams_get (URLSearchParams_new P (search u)) (js ''secret'')
                    = Some []))
    \<longrightarrow> parseTotpUri P uri = None)
   \<and> (startsWith uri (js ''otpauth://totp/'') \<and> URL_new P uri = Inr u
      \<and> URLSearchParams_get (URLSearchParams_new P (search u)) (js ''secret'') = Some s
      \<and> s \<noteq> [] \<and> (\<exists>r. parseTotpUri_try P uri = Inr r)
    \<longrightarrow> (\<exists>d. parseTotpUri P uri = Some d \<and> secret d = s))"
proof (intro conjI impI)
  assume "\<not> startsWith uri (js ''otpauth://totp/'')
      \<or> (\<exists>e. URL_new P uri = Inl e)
      \<or> (\<exists>u. URL_new P uri = Inr u
            \<and> (URLSearchParams_get (URLSearchParams_new P (search u)) (js ''secret'') = None
               \<or> URLSearchParams_get (URLSearchParams_new P (search u)) (js ''secret'')
                    = Some []))"
  then show "parseTotpUri P uri = None"
    by (auto simp: parseTotpUri_def parseTotpUri_try_def Let_def)
next
  assume h: "startsWith uri (js ''otpauth://totp/'') \<and> URL_new P uri = Inr u
      \<and> URLSearchParams_get (URLSearchParams_new P (search u)) (js ''secret'') = Some s
      \<and> s \<noteq> [] \<and> (\<exists>r. parseTotpUri_try P uri = Inr r)"
  then obtain r where r: "parseTotpUri_try P uri = Inr r" by blast
  show "\<exists>d. parseTotpUri P uri = Some d \<and> secret d = s"
  proof (cases "decodeURIComponent P (substring (pathname u) 7)")
    case (Inl e)
    with h r show ?thesis by (simp add: parseTotpUri_try_def Let_def)
  next
    case (Inr l)
    with h show ?thesis by (simp add: parseTotpUri_def parseTotpUri_try_def Let_def)
  qed
qed

theorem parseTotpUri_null_cases_witness:
  "parseTotpUri whatwg (js ''OTPAUTH://totp/x?secret=ABC'') = None
   \<and> map_option secret (parseTotpUri whatwg
     (js ''otpauth://totp/Example:alice@example.com?secret=JBSWY3DPEHPK3PXP&issuer=Example''))
       = Some (js ''JBSWY3DPEHPK3PXP'')"
proof -
  have ne: "js ''JBSWY3DPEHPK3PXP'' \<noteq> []" by (simp add: js_def)
  have pre: "startsWith
     (js ''otpauth://totp/Example:alice@example.com?secret=JBSWY3DPEHPK3PXP&issuer=Example'')
     (js ''otpauth://totp/'')"
    by (simp add: js_def startsWith_def)
  have "search \<lparr>pathname = js ''/Example:alice@example.com'',
           search = js ''?secret=JBSWY3DPEHPK3PXP&issuer=Example''\<rparr>
        = js ''?secret=JBSWY3DPEHPK3PXP&issuer=Example''"
    by simp
  then show ?thesis
    using parseTotpUri_null_cases [of "js ''OTPAUTH://totp/x?secret=ABC''" whatwg]
      parseTotpUri_null_cases [of
        "js ''otpauth://totp/Example:alice@example.com?secret=JBSWY3DPEHPK3PXP&issuer=Example''"
        whatwg "\<lparr>pathname = js ''/Example:alice@example.com'',
           search = js ''?secret=JBSWY3DPEHPK3PXP&issuer=Example''\<rparr>"
        "js ''JBSWY3DPEHPK3PXP''"]
      prefix_OTPAUTH pre URL_example get_example try_example ne
    by auto
qed

text \<open>
  Counterexample to C5 as stated: \<open>otpauth://totp/x?secret=\<close> begins with the
  prefix, is parsed by \<open>URL\<close>, and has a \<open>secret\<close> parameter (the empty string), yet
  the result is null.
\<close>

theorem parseTotpUri_null_with_secret_present:
  "startsWith (js ''otpauth://totp/x?secret='') (js ''otpauth://totp/'')
   \<and> URL_new whatwg (js ''otpauth://totp/x?secret='')
       = Inr \<lparr>pathname = js ''/x'', search = js ''?secret=''\<rparr>
   \<and> URLSearchParams_get (URLSearchParams_new whatwg (js ''?secret='')) (js ''secret'') \<noteq> None
   \<and> parseTotpUri whatwg (js ''otpauth://totp/x?secret='') = None"
proof -
  have "search \<lparr>pathname = js ''/x'', search = js ''?secret=''\<rparr> = js ''?secret=''"
    by simp
  then have "parseTotpUri whatwg (js ''otpauth://totp/x?secret='') = None"
    using prefix_empty_secret URL_empty_secret get_empty_secret
    by (simp add: parseTotpUri_def parseTotpUri_try_def)
  then show ?thesis
    using prefix_empty_secret URL_empty_secret get_empty_secret by simp
qed

text \<open>
  C9. When the input begins with \<open>otpauth://totp/\<close> and its \<open>secret\<close> query parameter
  is present but empty, \<open>parseTotpUri\<close> returns null, as for an absent one; and a
  TotpData that it returns never has an empty secret.
\<close>

theorem parseTotpUri_empty_secret:
  "(startsWith uri (js ''otpauth://totp/'') \<and> URL_new P uri = Inr u
      \<and> URLSearchParams_get (URLSearchParams_new P (search u)) (js ''secret'') = Some []
    \<longrightarrow> parseTotpUri P uri = None)
   \<and> (parseTotpUri P uri = Some d \<longrightarrow> secret d \<noteq> [])"
  by (auto simp: parseTotpUri_def parseTotpUri_try_def Let_def
      split: sum.splits option.splits if_splits)

theorem parseTotpUri_empty_secret_witness:
  "parseTotpUri whatwg (js ''otpauth://totp/x?secret='') = None
   \<and> secret \<lparr>secret = js ''JBSWY3DPEHPK3PXP'', label = Some (js ''e:alice@example.com''),
            issuer = Some (js ''Example'')\<rparr> \<noteq> []"
  using parseTotpUri_empty_secret [of "js ''otpauth://totp/x?secret=''" whatwg
      "\<lparr>pathname = js ''/x'', search = js ''?secret=''\<rparr>"]
    parseTotpUri_empty_secret [of
      "js ''otpauth://totp/Example:alice@example.com?secret=JBSWY3DPEHPK3PXP&issuer=Example''"
      whatwg _ "\<lparr>secret = js ''JBSWY3DPEHPK3PXP'', label = Some (js ''e:alice@example.com''),
            issuer = Some (js ''Example'')\<rparr>"]
    prefix_empty_secret URL_empty_secret get_empty_secret parse_example
  by simp

text \<open>
  C10. The prefix test is case-sensitive: for every input that does not begin with
  exactly the lower-case characters \<open>otpauth://totp/\<close> (so also for
  \<open>OTPAUTH://totp/...\<close> and \<open>otpauth://TOTP/...\<close>) \<open>parseTotpUri\<close> returns null,
  whatever the platform would make of the string.
\<close>

theorem parseTotpUri_prefix_case_sensitive:
  "\<not> startsWith uri (js ''otpauth://totp/'') \<Longrightarrow> parseTotpUri P uri = None"
  by (simp add: parseTotpUri_def parseTotpUri_try_def)

theorem parseTotpUri_prefix_case_sensitive_witness:
  "parseTotpUri whatwg (js ''OTPAUTH://totp/x?secret=ABC'') = None
   \<and> parseTotpUri whatwg (js ''otpauth://TOTP/x?secret=ABC'') = None"
  using parseTotpUri_prefix_case_sensitive [OF prefix_OTPAUTH, of whatwg]
    parseTotpUri_prefix_case_sensitive [OF prefix_TOTP, of whatwg]
  by simp

section \<open>Properties of the live display\<close>

lemma tick_interval: "interval (tick G t_rem t_gen st) = interval st"
  by (simp add: tick_def split: option.splits)

lemma tick_timeRemaining:
  "interval st = Some s \<Longrightarrow> timeRemaining (tick G t_rem t_gen st) = getTimeRemaining t_rem"
  by (simp add: tick_def)

lemma tick_derivations:
  "interval st = Some s \<Longrightarrow>
   derivations (tick G t_rem t_gen st)
     = derivations st + (if getTimeRemaining t_rem = 30 then 1 else 0)"
  by (simp add: tick_def)

lemma tick_totpCode:
  "getTimeRemaining t_rem \<noteq> 30 \<Longrightarrow> totpCode (tick G t_rem t_gen st) = totpCode st"
  by (simp add: tick_def split: option.splits)

lemma tick_after_cleanup: "tick G t_rem t_gen (cleanup st) = cleanup st"
  by (simp add: tick_def cleanup_def)

lemma run_interval: "interval (run G ts st) = interval st"
  by (induction ts arbitrary: st) (auto simp: tick_interval)

lemma run_derivations:
  "interval st = Some s \<Longrightarrow>
   derivations (run G ts st)
     = derivations st + length (filter (\<lambda>t. getTimeRemaining (fst t) = 30) ts)"
proof (induction ts arbitrary: st)
  case Nil
  then show ?case by simp
next
  case (Cons t ts)
  obtain t_rem t_gen where t: "t = (t_rem, t_gen)" by (cases t)
  have "interval (tick G t_rem t_gen st) = Some s"
    using Cons.prems by (simp add: tick_interval)
  from Cons.IH [OF this] show ?case
    using Cons.prems by (simp add: t tick_derivations)
qed

lemma run_append: "run G (xs @ ys) st = run G ys (run G xs st)"
proof (induction xs arbitrary: st)
  case Nil
  then show ?case by simp
next
  case (Cons t ts)
  then show ?case by (cases t) simp
qed

lemma run_totpCode_unchanged:
  "\<forall>t \<in> set ts. getTimeRemaining (fst t) \<noteq> 30 \<Longrightarrow> totpCode (run G ts st) = totpCode st"
proof (induction ts arbitrary: st)
  case Nil
  then show ?case by simp
next
  case (Cons t ts)
  obtain t_rem t_gen where t: "t = (t_rem, t_gen)" by (cases t)
  from Cons.prems have "getTimeRemaining t_rem \<noteq> 30" by (simp add: t)
  then have "totpCode (tick G t_rem t_gen st) = totpCode st" by (rule tick_totpCode)
  moreover from Cons have "totpCode (run G ts (tick G t_rem t_gen st))
      = totpCode (tick G t_rem t_gen st)"
    by simp
  ultimately show ?case by (simp add: t)
qed

lemma tick_totpCode_rederived:
  "interval st = Some s \<Longrightarrow> getTimeRemaining t_rem = 30 \<Longrightarrow>
   totpCode (tick G t_rem t_gen st)
     = Some (code_or_error (generateTotpCode G t_gen s False))"
  by (simp add: tick_def)

lemma run_snoc_timeRemaining:
  "interval st = Some s \<Longrightarrow>
   timeRemaining (run G (ts @ [(t_rem, t_gen)]) st) = getTimeRemaining t_rem"
  by (simp add: run_append run_interval tick_timeRemaining)

lemma every_second_split:
  assumes "1 \<le> c" "c < Suc n"
  shows "every_second t0 n
    = map (\<lambda>k. (t0 + 1000 * int k, t0 + 1000 * int k)) [1..<c]
      @ (t0 + 1000 * int c, t0 + 1000 * int c)
      # map (\<lambda>k. (t0 + 1000 * int k, t0 + 1000 * int k)) [Suc c..<Suc n]"
proof -
  have "[1..<c + (Suc n - c)] = [1..<c] @ [c..<c + (Suc n - c)]"
    using assms by (intro upt_add_eq_append) simp
  then have "[1..<Suc n] = [1..<c] @ [c..<Suc n]"
    using assms by simp
  also have "[c..<Suc n] = c # [Suc c..<Suc n]"
    using assms by (simp add: upt_conv_Cons)
  finally show ?thesis by (simp add: every_second_def)
qed

lemma length_filter_eq_upt:
  "a \<le> c \<Longrightarrow> c < b \<Longrightarrow> length (filter (\<lambda>k. k = c) [a..<b]) = 1"
proof -
  assume "a \<le> c" "c < b"
  then have "{k. k = c} \<inter> set [a..<b] = {c}" by auto
  then show ?thesis by (simp add: distinct_length_filter)
qed

lemma boundary_tick:
  assumes "0 \<le> t0" "(t0 + 31000) div 30000 = t0 div 30000 + 1" "1 \<le> k" "k < 32"
  shows "(getTimeRemaining (t0 + 1000 * int k) = 30)
           = (k = 30 - nat ((t0 div 1000) mod 30))"
proof -
  define s where "s = t0 div 1000"
  define r where "r = s mod 30"
  have s0: "0 \<le> s" using assms(1) by (simp add: s_def pos_imp_zdiv_nonneg_iff)
  have r: "0 \<le> r" "r < 30" by (simp_all add: r_def)
  have step: "(t0 + 1000 * int k) div 1000 = s + int k" by (simp add: s_def)
  have "(t0 + 31000) div 30000 = ((t0 + 31000) div 1000) div 30"
    by (simp add: zdiv_zmult2_eq)
  also have "(t0 + 31000) div 1000 = s + 31" by (simp add: s_def)
  finally have a: "(t0 + 31000) div 30000 = (s + 31) div 30" .
  have b: "t0 div 30000 = s div 30" by (simp add: s_def zdiv_zmult2_eq)
  have "s = 30 * (s div 30) + r" by (simp add: r_def)
  then have "(s + 31) div 30 = s div 30 + (r + 31) div 30"
    by (metis add.assoc div_mult_self2 add.commute zero_neq_numeral)
  with assms(2) a b have "(r + 31) div 30 = 1" by simp
  with r have r28: "r \<le> 28" by arith
  have "0 \<le> t0 + 1000 * int k" using assms(1) by simp
  then have "getTimeRemaining (t0 + 1000 * int k) = 30 - (s + int k) mod 30"
    by (simp add: getTimeRemaining_eq step)
  moreover have "(s + int k) mod 30 = (r + int k) mod 30"
    by (simp add: r_def mod_add_left_eq)
  moreover have "((r + int k) mod 30 = 0) = (r + int k = 30)"
  proof
    assume "(r + int k) mod 30 = 0"
    then obtain q where q: "r + int k = 30 * q" by (auto simp: mod_eq_0_iff_dvd)
    have "0 < r + int k" "r + int k < 60" using r r28 assms(3,4) by simp_all
    with q have "0 < q" "q < 2" by simp_all
    then have "q = 1" by simp
    with q show "r + int k = 30" by simp
  next
    assume "r + int k = 30"
    then show "(r + int k) mod 30 = 0" by simp
  qed
  ultimately have "(getTimeRemaining (t0 + 1000 * int k) = 30) = (r + int k = 30)"
    by simp
  also have "\<dots> = (k = 30 - nat r)" using r by auto
  finally show ?thesis by (simp add: r_def s_def)
qed

text \<open>
  C6. While the interval is registered, a tick derives the code again if and only if
  the remaining time it has just computed is 30: then it calls \<open>generateTotpCode\<close>
  once and displays the result (or \<open>Error\<close>); otherwise it calls nothing and leaves the
  displayed code unchanged. Every tick stores the remaining time it computed. So over
  31 ticks one second apart that cross exactly one step boundary (the step at the
  last tick is the step at activation plus one) the code is derived again exactly
  once, and the code displayed at the end is the one derived by the tick at the
  boundary.
\<close>

theorem tick_rederives_at_window_start:
  assumes "interval st = Some s"
  shows "derivations (tick G t_rem t_gen st)
           = derivations st + (if getTimeRemaining t_rem = 30 then 1 else 0)
    \<and> (getTimeRemaining t_rem = 30
        \<longrightarrow> totpCode (tick G t_rem t_gen st)
              = Some (code_or_error (generateTotpCode G t_gen s False)))
    \<and> (getTimeRemaining t_rem \<noteq> 30 \<longrightarrow> totpCode (tick G t_rem t_gen st) = totpCode st)
    \<and> timeRemaining (tick G t_rem t_gen st) = getTimeRemaining t_rem
    \<and> (0 \<le> t0 \<and> (t0 + 31000) div 30000 = t0 div 30000 + 1
        \<longrightarrow> derivations (run G (every_second t0 31) st) = derivations st + 1
          \<and> totpCode (run G (every_second t0 31) st)
              = Some (code_or_error (generateTotpCode G
                  (t0 + 1000 * int (30 - nat ((t0 div 1000) mod 30))) s False))
          \<and> timeRemaining (run G (every_second t0 31) st) = getTimeRemaining (t0 + 31000))"
proof -
  have "derivations (run G (every_second t0 31) st) = derivations st + 1
          \<and> totpCode (run G (every_second t0 31) st)
              = Some (code_or_error (generateTotpCode G
                  (t0 + 1000 * int (30 - nat ((t0 div 1000) mod 30))) s False))
          \<and> timeRemaining (run G (every_second t0 31) st) = getTimeRemaining (t0 + 31000)"
    if t0: "0 \<le> t0" "(t0 + 31000) div 30000 = t0 div 30000 + 1"
  proof -
    define c where "c = 30 - nat ((t0 div 1000) mod 30)"
    define f where "f = (\<lambda>k. (t0 + 1000 * int k, t0 + 1000 * int k))"
    have c: "1 \<le> c" "c < 32"
    proof -
      have "0 \<le> (t0 div 1000) mod 30" "(t0 div 1000) mod 30 < 30" by simp_all
      then show "1 \<le> c" "c < 32" unfolding c_def by linarith+
    qed
    have at: "(getTimeRemaining (t0 + 1000 * int k) = 30) = (k = c)"
      if "1 \<le> k" "k < 32" for k
      using boundary_tick [OF t0 that] by (simp add: c_def)
    have "filter (\<lambda>k. getTimeRemaining (t0 + 1000 * int k) = 30) [1..<32]
            = filter (\<lambda>k. k = c) [1..<32]"
      by (rule filter_cong [OF refl]) (simp add: at)
    then have "length (filter (\<lambda>k. getTimeRemaining (t0 + 1000 * int k) = 30) [1..<32]) = 1"
      using c by (simp add: length_filter_eq_upt)
    then have count: "derivations (run G (every_second t0 31) st) = derivations st + 1"
      using run_derivations [OF assms, of G "every_second t0 31"]
      by (simp add: every_second_def filter_map comp_def)
    have split: "every_second t0 31 = map f [1..<c] @ f c # map f [Suc c..<32]"
      using every_second_split [of c 31 t0] c by (simp add: f_def)
    define st1 where "st1 = run G (map f [1..<c]) st"
    define st2 where "st2 = tick G (t0 + 1000 * int c) (t0 + 1000 * int c) st1"
    have i1: "interval st1 = Some s" by (simp add: st1_def run_interval assms)
    have "getTimeRemaining (t0 + 1000 * int c) = 30" using at [of c] c by simp
    then have code2: "totpCode st2
        = Some (code_or_error (generateTotpCode G (t0 + 1000 * int c) s False))"
      unfolding st2_def using i1 by (rule tick_totpCode_rederived [rotated])
    have "\<forall>t \<in> set (map f [Suc c..<32]). getTimeRemaining (fst t) \<noteq> 30"
      using at c by (auto simp: f_def)
    then have "totpCode (run G (map f [Suc c..<32]) st2) = totpCode st2"
      by (rule run_totpCode_unchanged)
    moreover have "run G (every_second t0 31) st = run G (map f [Suc c..<32]) st2"
      by (simp add: split run_append st1_def st2_def f_def)
    ultimately have code: "totpCode (run G (every_second t0 31) st)
        = Some (code_or_error (generateTotpCode G (t0 + 1000 * int c) s False))"
      using code2 by simp
    have "every_second t0 31
        = map f [1..<31] @ [(t0 + 1000 * int 31, t0 + 1000 * int 31)]"
      using every_second_split [of 31 31 t0] by (simp add: f_def)
    then have "timeRemaining (run G (every_second t0 31) st)
        = getTimeRemaining (t0 + 1000 * int 31)"
      using run_snoc_timeRemaining [OF assms] by simp
    then have rem: "timeRemaining (run G (every_second t0 31) st)
        = getTimeRemaining (t0 + 31000)"
      by simp
    from count code rem show ?thesis by (simp add: c_def)
  qed
  then show ?thesis
    using assms
    by (simp add: tick_derivations tick_totpCode tick_timeRemaining tick_totpCode_rederived)
qed

lemma prefix_example: "startsWith example_uri (js ''otpauth://totp/'')"
  by (simp add: example_uri_def js_def startsWith_def)

lemma parse_example_uri:
  "parseTotpUri whatwg example_uri
   = Some \<lparr>secret = js ''JBSWY3DPEHPK3PXP'', label = Some (js ''e:alice@example.com''),
            issuer = Some (js ''Example'')\<rparr>"
  unfolding example_uri_def by (rule parse_example)

lemma flaky_ok: "generateTotpCode flaky 1700000015123 s False = Some (js ''492039'')"
  by (simp add: generateTotpCode_def flaky_def)

lemma flaky_fails: "generateTotpCode flaky 1700000040000 s False = None"
  by (simp add: generateTotpCode_def flaky_def)

lemma flaky_again: "generateTotpCode flaky 1700000070000 s False = Some (js ''492039'')"
  by (simp add: generateTotpCode_def flaky_def)

lemma activate_example:
  "activate whatwg flaky example_uri 1700000015123 1700000015123 mounted
   = \<lparr>totpCode = Some (js ''492039''), timeRemaining = 25,
      interval = Some (js ''JBSWY3DPEHPK3PXP''), derivations = 1\<rparr>"
proof -
  have "getTimeRemaining 1700000015123 = 25"
    by (simp add: getTimeRemaining_def floor_div_def js_rem_def smod_int_alt_def)
  moreover have "code_or_error (Some (js ''492039'')) = js ''492039''"
    by (simp add: code_or_error_def js_def)
  ultimately show ?thesis
    by (simp add: activate_def prefix_example parse_example_uri flaky_ok mounted_def)
qed

lemma remaining_40: "getTimeRemaining 1700000040000 = 30"
  by (simp add: getTimeRemaining_def floor_div_def js_rem_def smod_int_alt_def)

lemma remaining_70: "getTimeRemaining 1700000070000 = 30"
  by (simp add: getTimeRemaining_def floor_div_def js_rem_def smod_int_alt_def)

lemma activate_failed:
  "activate whatwg flaky example_uri 1700000045123 1700000045123 mounted
   = \<lparr>totpCode = Some (js ''Error''), timeRemaining = 25,
      interval = Some (js ''JBSWY3DPEHPK3PXP''), derivations = 1\<rparr>"
proof -
  have "getTimeRemaining 1700000045123 = 25"
    by (simp add: getTimeRemaining_def floor_div_def js_rem_def smod_int_alt_def)
  moreover have "generateTotpCode flaky 1700000045123 (js ''JBSWY3DPEHPK3PXP'') False = None"
    by (simp add: generateTotpCode_def flaky_def)
  ultimately show ?thesis
    by (simp add: activate_def prefix_example parse_example_uri mounted_def code_or_error_def)
qed

theorem tick_rederives_at_window_start_witness:
  "totpCode (activate whatwg flaky example_uri 1700000045123 1700000045123 mounted)
     = Some (js ''Error'')
   \<and> derivations (run flaky (every_second 1700000045123 31)
      (activate whatwg flaky example_uri 1700000045123 1700000045123 mounted)) = 2
   \<and> totpCode (run flaky (every_second 1700000045123 31)
      (activate whatwg flaky example_uri 1700000045123 1700000045123 mounted))
     = Some (js ''492039'')
   \<and> timeRemaining (run flaky (every_second 1700000045123 31)
      (activate whatwg flaky example_uri 1700000045123 1700000045123 mounted)) = 24
   \<and> totpCode (tick flaky 1700000070000 1700000070000
      (activate whatwg flaky example_uri 1700000045123 1700000045123 mounted))
     = Some (js ''492039'')"
proof -
  let ?st = "activate whatwg flaky example_uri 1700000045123 1700000045123 mounted"
  have i: "interval ?st = Some (js ''JBSWY3DPEHPK3PXP'')" by (simp add: activate_failed)
  have g: "generateTotpCode flaky 1700000070123 s False = Some (js ''492039'')" for s
    by (simp add: generateTotpCode_def flaky_def)
  have ok: "code_or_error (Some (js ''492039'')) = js ''492039''"
    by (simp add: code_or_error_def js_def)
  have r: "getTimeRemaining 1700000076123 = 24"
    by (simp add: getTimeRemaining_def floor_div_def js_rem_def smod_int_alt_def)
  show ?thesis
    using tick_rederives_at_window_start
      [OF i, where G = flaky and t_rem = 1700000070000 and t_gen = 1700000070000
         and ?t0.0 = 1700000045123]
    by (simp add: activate_failed remaining_70 flaky_again g ok r)
qed

text \<open>
  C7. When \<open>generateTotpCode\<close> returns null, on activation or in a tick that derives
  the code, the displayed code becomes the string \<open>Error\<close>, and the interval stays
  registered: no tick clears it, so later ticks run, and a tick that starts a window
  in which derivation succeeds displays the new code.
\<close>

theorem derivation_failure_shows_Error:
  "(startsWith v (js ''otpauth://totp/'') \<and> parseTotpUri P v = Some d
      \<and> generateTotpCode G t_gen (secret d) False = None
    \<longrightarrow> totpCode (activate P G v t_gen t_rem st) = Some (js ''Error'')
        \<and> interval (activate P G v t_gen t_rem st) = Some (secret d))
   \<and> (interval st = Some s \<and> getTimeRemaining t_rem = 30
      \<and> generateTotpCode G t_gen s False = None
    \<longrightarrow> totpCode (tick G t_rem t_gen st) = Some (js ''Error''))
   \<and> (interval st = Some s \<and> getTimeRemaining t_rem = 30
      \<and> generateTotpCode G t_gen s False = Some c \<and> c \<noteq> []
    \<longrightarrow> totpCode (tick G t_rem t_gen st) = Some c)
   \<and> interval (tick G t_rem t_gen st) = interval st
   \<and> interval (run G ts st) = interval st"
  by (simp add: activate_def tick_def code_or_error_def run_interval split: option.splits)

theorem derivation_failure_shows_Error_witness:
  "totpCode (activate whatwg flaky example_uri 1700000040000 1700000040000 mounted)
     = Some (js ''Error'')
   \<and> interval (activate whatwg flaky example_uri 1700000040000 1700000040000 mounted)
     = Some (js ''JBSWY3DPEHPK3PXP'')
   \<and> totpCode (tick flaky 1700000040000 1700000040000
        (activate whatwg flaky example_uri 1700000015123 1700000015123 mounted))
     = Some (js ''Error'')
   \<and> interval (tick flaky 1700000040000 1700000040000
        (activate whatwg flaky example_uri 1700000015123 1700000015123 mounted))
     = Some (js ''JBSWY3DPEHPK3PXP'')
   \<and> totpCode (tick flaky 1700000070000 1700000070000
        (tick flaky 1700000040000 1700000040000
          (activate whatwg flaky example_uri 1700000015123 1700000015123 mounted)))
     = Some (js ''492039'')"
proof -
  let ?d = "\<lparr>secret = js ''JBSWY3DPEHPK3PXP'', label = Some (js ''e:alice@example.com''),
            issuer = Some (js ''Example'')\<rparr>"
  let ?st0 = "activate whatwg flaky example_uri 1700000015123 1700000015123 mounted"
  let ?st1 = "tick flaky 1700000040000 1700000040000 ?st0"
  have ne: "js ''492039'' \<noteq> []" by (simp add: js_def)
  note a = derivation_failure_shows_Error
    [where v = example_uri and P = whatwg and d = ?d and G = flaky
       and t_gen = 1700000040000 and t_rem = 1700000040000 and st = mounted]
  note b = derivation_failure_shows_Error
    [where G = flaky and t_gen = 1700000040000 and t_rem = 1700000040000 and st = ?st0
       and s = "js ''JBSWY3DPEHPK3PXP''"]
  note c = derivation_failure_shows_Error
    [where G = flaky and t_gen = 1700000070000 and t_rem = 1700000070000 and st = ?st1
       and s = "js ''JBSWY3DPEHPK3PXP''" and c = "js ''492039''"]
  have i0: "interval ?st0 = Some (js ''JBSWY3DPEHPK3PXP'')" by (simp add: activate_example)
  have i1: "interval ?st1 = Some (js ''JBSWY3DPEHPK3PXP'')" using b i0 by simp
  show ?thesis
    using a b c i0 i1 ne prefix_example parse_example_uri flaky_fails flaky_again
      remaining_40 remaining_70
    by simp
qed

section \<open>Properties of the code derivation\<close>

lemma currentStep_next: "currentStep (now + 30000) = currentStep now + 1"
  by (simp add: currentStep_def floor_div_def)

lemma be_nat_snoc: "be_nat (bs @ [b]) = be_nat bs * 256 + unat b"
  by (simp add: be_nat_def)

lemma length_be_bytes: "length (be_bytes n c) = n"
  by (induction n arbitrary: c) simp_all

lemma be_nat_be_bytes: "be_nat (be_bytes n c) = c mod 256 ^ n"
proof (induction n arbitrary: c)
  case 0
  then show ?case by (simp add: be_nat_def)
next
  case (Suc n)
  have "unat (of_nat c :: byte) = c mod 256" by (simp add: unat_of_nat)
  then have "be_nat (be_bytes (Suc n) c) = ((c div 256) mod 256 ^ n) * 256 + c mod 256"
    by (simp add: be_nat_snoc Suc.IH)
  also have "\<dots> = c mod 256 ^ Suc n"
    by (simp add: mod_mult2_eq)
  finally show ?case .
qed

lemma unat_and_7F: "unat ((b :: byte) AND 0x7F) = unat b mod 128"
proof -
  have "(b AND 0x7F) = take_bit 7 b" by (simp add: take_bit_eq_mask mask_numeral)
  moreover have "unat (take_bit 7 b) = take_bit 7 (unat b)" by (rule unsigned_take_bit_eq)
  ultimately show ?thesis by (simp only: take_bit_eq_mod) simp
qed

lemma unat_and_0F: "unat ((b :: byte) AND 0x0F) = unat b mod 16"
proof -
  have "(b AND 0x0F) = take_bit 4 b" by (simp add: take_bit_eq_mask mask_numeral)
  moreover have "unat (take_bit 4 b) = take_bit 4 (unat b)" by (rule unsigned_take_bit_eq)
  ultimately show ?thesis by (simp only: take_bit_eq_mod) simp
qed

lemma unat_byte_lt: "unat (b :: byte) < 256"
  using unsigned_less [of b] by simp

lemma be_nat_4: "be_nat [a, b, c, d] = unat a * 2 ^ 24 + unat b * 2 ^ 16 + unat c * 2 ^ 8 + unat d"
  by (simp add: be_nat_def)

lemma take4_drop:
  assumes "off + 4 \<le> length d"
  shows "take 4 (drop off d) = [d ! off, d ! (off + 1), d ! (off + 2), d ! (off + 3)]"
proof -
  have "length (take 4 (drop off d)) = 4" using assms by simp
  moreover have "\<And>i. i < 4 \<Longrightarrow> take 4 (drop off d) ! i = d ! (off + i)"
    using assms by simp
  ultimately show ?thesis
    by (intro nth_equalityI) (auto simp: nth_Cons' numeral_eq_Suc less_Suc_eq)
qed

lemma truncation_value:
  assumes "dynamic_truncation d = Inr v"
  shows "v = be_nat (take 4 (drop (unat (last d) mod 16) d)) mod 2 ^ 31"
proof -
  let ?off = "unat (last d) mod 16"
  from assms have len: "?off + 4 \<le> length d"
    and v: "v = (unat (d ! ?off) mod 128) * 2 ^ 24 + unat (d ! (?off + 1)) * 2 ^ 16
                  + unat (d ! (?off + 2)) * 2 ^ 8 + unat (d ! (?off + 3))"
    by (auto simp: dynamic_truncation_def Let_def unat_and_0F unat_and_7F split: if_splits)
  define a where "a = unat (d ! ?off)"
  define r where "r = unat (d ! (?off + 1)) * 2 ^ 16 + unat (d ! (?off + 2)) * 2 ^ 8
                        + unat (d ! (?off + 3))"
  have "r < 2 ^ 24"
    using unat_byte_lt [of "d ! (?off + 1)"] unat_byte_lt [of "d ! (?off + 2)"]
      unat_byte_lt [of "d ! (?off + 3)"]
    by (simp add: r_def)
  have "be_nat (take 4 (drop ?off d)) = a * 2 ^ 24 + r"
    by (simp add: take4_drop [OF len] be_nat_4 a_def r_def)
  moreover have "(a * 2 ^ 24 + r) mod 2 ^ 31 = (a mod 128) * 2 ^ 24 + r"
  proof -
    define q where "q = a div 128"
    define m where "m = a mod 128"
    have a: "a = q * 128 + m" and m: "m < 128" by (simp_all add: q_def m_def)
    have "m * 2 ^ 24 \<le> 127 * 2 ^ 24" using m by (intro mult_le_mono1) simp
    with \<open>r < 2 ^ 24\<close> have small: "m * 2 ^ 24 + r < 2 ^ 31" by simp
    have "a * 2 ^ 24 + r = q * 2 ^ 31 + (m * 2 ^ 24 + r)"
      unfolding a by (simp add: algebra_simps)
    then have "(a * 2 ^ 24 + r) mod 2 ^ 31 = (m * 2 ^ 24 + r) mod 2 ^ 31"
      by (simp only: mod_mult_self3)
    with small show ?thesis by (simp add: m_def)
  qed
  ultimately show ?thesis by (simp add: v a_def r_def)
qed

lemma decimal_digits: "list_all is_digit (decimal n)"
proof (induction n rule: decimal.induct)
  case (1 n)
  show ?case
  proof (cases "n < 10")
    case True
    then show ?thesis by (subst decimal.simps) (simp add: is_digit_def)
  next
    case False
    have "n mod 10 < 10" by simp
    then have "is_digit (0x30 + n mod 10)" by (simp add: is_digit_def)
    with False 1 show ?thesis by (subst decimal.simps) simp
  qed
qed

lemma decimal_value_snoc: "decimal_value (s @ [c]) = decimal_value s * 10 + (c - 0x30)"
  by (simp add: decimal_value_def)

lemma decimal_value_decimal: "decimal_value (decimal n) = n"
proof (induction n rule: decimal.induct)
  case (1 n)
  show ?case
  proof (cases "n < 10")
    case True
    then show ?thesis by (subst decimal.simps) (simp add: decimal_value_def)
  next
    case False
    with 1 show ?thesis by (subst decimal.simps) (simp add: decimal_value_snoc)
  qed
qed

lemma length_decimal: "0 < k \<Longrightarrow> n < 10 ^ k \<Longrightarrow> length (decimal n) \<le> k"
proof (induction n arbitrary: k rule: decimal.induct)
  case (1 n)
  show ?case
  proof (cases "n < 10")
    case True
    with 1 show ?thesis by (subst decimal.simps) simp
  next
    case False
    from False 1(3) have "1 < k" by (cases "k = 1") (use 1(2) in auto)
    then obtain j where k: "k = Suc j" "0 < j" by (cases k) auto
    from 1(3) k have "n div 10 < 10 ^ j" by (simp add: less_mult_imp_div_less mult.commute)
    with 1(1) [OF False \<open>0 < j\<close>] have "length (decimal (n div 10)) \<le> j" by simp
    with False k show ?thesis by (subst decimal.simps) simp
  qed
qed

lemma decimal_value_replicate_zero:
  "decimal_value (replicate m 0x30 @ s) = decimal_value s"
proof -
  have "foldl (\<lambda>a c. a * 10 + (c - 0x30)) 0 (replicate m (0x30::nat)) = 0"
    by (induction m) simp_all
  then show ?thesis by (simp add: decimal_value_def)
qed

lemma padStart_decimal:
  assumes "0 < k" "n < 10 ^ k"
  shows "length (padStart (decimal n) k 0x30) = k"
    and "list_all is_digit (padStart (decimal n) k 0x30)"
    and "decimal_value (padStart (decimal n) k 0x30) = n"
  using length_decimal [OF assms] decimal_digits [of n]
  by (auto simp: padStart_def decimal_value_replicate_zero decimal_value_decimal
      is_digit_def list_all_iff)

lemma generate_eq_code_at_step:
  "generateTotpCode (authenticator_generate p) now s next
     = code_at_step p s (currentStep (now + (if next then 30000 else 0)))"
  by (simp add: generateTotpCode_def authenticator_generate_def code_at_step_def
      split: sum.splits)

text \<open>
  C4. With \<open>next = true\<close> \<open>generateTotpCode\<close> returns the code of the step after the
  current one: advancing the epoch by 30000 ms and adding one to \<open>currentStep\<close> give
  the same step at every clock value, so the next code is the ordinary code with
  the step counter incremented by exactly one.
\<close>

theorem next_code_is_next_step:
  "generateTotpCode (authenticator_generate p) now s True
     = code_at_step p s (currentStep now + 1)
   \<and> generateTotpCode (authenticator_generate p) now s False
     = code_at_step p s (currentStep now)
   \<and> currentStep (now + 30000) = currentStep now + 1"
  by (simp add: generate_eq_code_at_step currentStep_next)

theorem next_code_is_next_step_witness:
  "generateTotpCode (authenticator_generate fixed_digest) 1700000015123
     (js ''JBSWY3DPEHPK3PXP'') True
     = code_at_step fixed_digest (js ''JBSWY3DPEHPK3PXP'') 56666668
   \<and> generateTotpCode (authenticator_generate fixed_digest) 1700000039999
     (js ''JBSWY3DPEHPK3PXP'') True
     = code_at_step fixed_digest (js ''JBSWY3DPEHPK3PXP'') 56666668"
  using next_code_is_next_step [of fixed_digest 1700000015123 "js ''JBSWY3DPEHPK3PXP''"]
    next_code_is_next_step [of fixed_digest 1700000039999 "js ''JBSWY3DPEHPK3PXP''"]
  by (simp add: currentStep_def floor_div_def)

text \<open>
  C1. When the secret decodes to the key \<open>K\<close> and \<open>generateTotpCode\<close> succeeds at
  the clock value \<open>t\<close> (milliseconds), the message given to the keyed digest is the
  8-byte big-endian encoding of \<open>floor(t / 30 s)\<close>, and the code is a string of
  exactly 6 decimal digits that denotes: the four digest bytes from the offset given
  by the low 4 bits of the last digest byte, read big-endian with the top bit
  cleared (a 31-bit number), modulo \<open>10^6\<close>.
\<close>

theorem generateTotpCode_standard:
  assumes "keyDecoder p s = Inr K"
    and "generateTotpCode (authenticator_generate p) t s False = Some code"
  shows "\<exists>msg. length msg = 8 \<and> int (be_nat msg) = (t div 1000) div 30
    \<and> (let d = createDigest p K msg; off = unat (last d) mod 16 in
          decimal_value code = (be_nat (take 4 (drop off d)) mod 2 ^ 31) mod 10 ^ 6)
    \<and> length code = 6 \<and> list_all is_digit code"
proof -
  define step where "step = currentStep t"
  define msg where "msg = be_bytes 8 (nat step)"
  define d where "d = createDigest p K msg"
  from assms have range: "0 \<le> step" "step < 2 ^ 64"
    by (auto simp: generateTotpCode_def authenticator_generate_def derive_code_def
        step_def split: sum.splits if_splits)
  from assms range obtain v where v: "dynamic_truncation d = Inr v"
    and code: "code = padStart (decimal (v mod 10 ^ 6)) 6 0x30"
    by (auto simp: generateTotpCode_def authenticator_generate_def derive_code_def
        step_def msg_def d_def split: sum.splits if_splits)
  have len: "length msg = 8" by (simp add: msg_def length_be_bytes)
  have "nat step < 256 ^ 8" using range by simp
  then have "be_nat msg = nat step" by (simp add: msg_def be_nat_be_bytes)
  then have val: "int (be_nat msg) = (t div 1000) div 30"
    using range by (simp add: step_def currentStep_def floor_div_def)
  have lt: "v mod 10 ^ 6 < 10 ^ 6" by simp
  have "0 < (6::nat)" by simp
  note fmt = padStart_decimal [OF this lt]
  have "decimal_value code
          = (be_nat (take 4 (drop (unat (last d) mod 16) d)) mod 2 ^ 31) mod 10 ^ 6"
    using fmt(3) truncation_value [OF v] by (simp add: code)
  then have "let d = createDigest p K msg; off = unat (last d) mod 16 in
          decimal_value code = (be_nat (take 4 (drop off d)) mod 2 ^ 31) mod 10 ^ 6"
    by (simp only: Let_def d_def)
  moreover have "length code = 6" "list_all is_digit code"
    using fmt(1,2) by (simp_all only: code)
  ultimately show ?thesis using len val by blast
qed

theorem generateTotpCode_standard_witness:
  "generateTotpCode (authenticator_generate fixed_digest) 1700000015123
     (js ''JBSWY3DPEHPK3PXP'') False = Some (js ''872921'')
   \<and> length (js ''872921'') = 6 \<and> list_all is_digit (js ''872921'')"
proof -
  have k: "keyDecoder fixed_digest (js ''JBSWY3DPEHPK3PXP'')
             = Inr (map of_nat (js ''JBSWY3DPEHPK3PXP''))"
    by (simp add: fixed_digest_def js_def)
  have cd: "createDigest fixed_digest key msg = rfc4226_digest" for key msg
    by (simp add: fixed_digest_def)
  have "dynamic_truncation rfc4226_digest = Inr 1357872921"
    by (simp add: dynamic_truncation_def rfc4226_digest_def)
  moreover have "padStart (decimal 872921) 6 0x30 = js ''872921''"
    by (simp add: padStart_def decimal.simps js_def)
  ultimately have g: "generateTotpCode (authenticator_generate fixed_digest) 1700000015123
     (js ''JBSWY3DPEHPK3PXP'') False = Some (js ''872921'')"
    by (simp add: generateTotpCode_def authenticator_generate_def derive_code_def k cd
        currentStep_def floor_div_def)
  from generateTotpCode_standard [OF k g] g show ?thesis by blast
qed

end
